theory Spec2Isabelle
  imports Complex_Main
begin

section \<open>Exceptions\<close>

text \<open>
  The control loop of \<^verbatim>\<open>bin/lendingbot.py\<close> tells exceptions apart by class, in the
  order of its \<^verbatim>\<open>except\<close> clauses. \<open>exn_class\<close> names the classes the program mentions;
  an exception carries the most specific of them it is an instance of (a subclass of
  \<^verbatim>\<open>URLError\<close> is a \<open>URLError\<close> here). \<open>OtherException\<close> is any other subclass of
  \<^verbatim>\<open>Exception\<close>; \<open>SystemExit\<close> stands for the subclasses of \<^verbatim>\<open>BaseException\<close> that are
  neither \<^verbatim>\<open>Exception\<close> nor \<^verbatim>\<open>KeyboardInterrupt\<close>.
\<close>

datatype exn_class =
    KeyboardInterrupt
  | SystemExit
  | BadStatusLine
  | URLError
  | ApiError
  | TypeError
  | OtherException

text \<open>
  An exception object: its class, its text \<^verbatim>\<open>str(ex)\<close>, and what its class does for the
  operator \<^verbatim>\<open>in\<close>. Python evaluates \<^verbatim>\<open>s in ex\<close> through the class of \<^verbatim>\<open>ex\<close>
  (\<^verbatim>\<open>__contains__\<close>, else iteration); \<^verbatim>\<open>BaseException\<close> defines neither, so for the
  built-in exception classes \<open>contains_impl\<close> is \<open>None\<close>.
\<close>

record exn =
  cls :: exn_class
  msg :: string
  contains_impl :: "(string \<Rightarrow> bool) option"

fun is_Exception :: "exn_class \<Rightarrow> bool" where
  "is_Exception KeyboardInterrupt = False"
| "is_Exception SystemExit = False"
| "is_Exception _ = True"

definition Exception :: "string \<Rightarrow> exn" where
  \<comment> \<open>\<^verbatim>\<open>Exception(m)\<close>\<close>
  "Exception m = \<lparr>cls = OtherException, msg = m, contains_impl = None\<rparr>"

definition not_iterable :: exn where
  \<comment> \<open>the \<^verbatim>\<open>TypeError\<close> of \<^verbatim>\<open>s in ex\<close> on an object that is no container\<close>
  "not_iterable = \<lparr>cls = TypeError, msg = ''argument is not iterable'', contains_impl = None\<rparr>"

definition py_in :: "string \<Rightarrow> exn \<Rightarrow> exn + bool" where
  \<comment> \<open>\<^verbatim>\<open>s in ex\<close>\<close>
  "py_in s ex = (case contains_impl ex of None \<Rightarrow> Inl not_iterable | Some f \<Rightarrow> Inr (f s))"

section \<open>ExchangeApiFactory\<close>

datatype exchange_class = Poloniex | Bitfinex

definition EXCHANGE :: "string \<rightharpoonup> exchange_class" where
  "EXCHANGE = [''POLONIEX'' \<mapsto> Poloniex, ''BITFINEX'' \<mapsto> Bitfinex]"

text \<open>
  The classes \<^verbatim>\<open>Poloniex\<close> and \<^verbatim>\<open>Bitfinex\<close> are imported; calling one is the parameter
  \<open>new\<close>, which returns the instance or raises. \<open>createApi\<close> returns its outcome together
  with the constructor calls it made, in order.
\<close>

definition createApi ::
  "(exchange_class \<Rightarrow> 'c \<Rightarrow> 'l \<Rightarrow> exn + 'a) \<Rightarrow> string \<Rightarrow> 'c \<Rightarrow> 'l
     \<Rightarrow> (exn + 'a) \<times> (exchange_class \<times> 'c \<times> 'l) list" where
  "createApi new exchange cfg logger =
     (if exchange \<notin> dom EXCHANGE
      then (Inl (Exception (''Invalid exchange: '' @ exchange)), [])
      else (new (the (EXCHANGE exchange)) cfg logger, [(the (EXCHANGE exchange), cfg, logger)]))"

section \<open>The control loop\<close>

text \<open>
  The loop of \<^verbatim>\<open>main\<close> (lines 73 to 141 of \<^verbatim>\<open>bin/lendingbot.py\<close>) works through its
  collaborators only: \<^verbatim>\<open>Data\<close>, \<^verbatim>\<open>Lending\<close>, \<^verbatim>\<open>PluginsManager\<close>, the logger, \<^verbatim>\<open>time\<close>
  and the exchange adapter \<^verbatim>\<open>api\<close>. The model records every call and every line
  printed, in order, as an \<open>event\<close>.
\<close>

record exchange_api =
  req_period :: rat
  default_req_period :: rat

datatype printed =
    CaughtBadStatusLine
  | CaughtFromExchange string
  | CaughtReadingApi string
  | Troubleshooting
  | HintPlainKeys
  | HintUniqueKey
  | HintIpFilter
  | TimedOut rat
  | CaughtRateLimit rat
  | Traceback
  | UnhandledError
  | Bye

datatype log_item =
    ErrException string
  | ErrBanned rat
  | ErrExpectBan

datatype event =
    UpdateConversionRates
  | BeforeLending
  | TransferBalances
  | CancelAll
  | LendAll
  | AfterLending
  | RefreshStatus
  | PersistStatus
  | Flush
  | Sleep rat
  | LogError log_item
  | Notify string
  | StopWebServer
  | OnBotExit
  | LogBye
  | Print printed

text \<open>
  What the loop reads and does not change: the value of \<^verbatim>\<open>Lending.get_sleep_time()\<close>,
  the options \<^verbatim>\<open>Config.has_option('MarketAnalysis', 'analyseCurrencies')\<close> and
  \<^verbatim>\<open>Config.getboolean('MarketAnalysis', 'ma_debug_log')\<close>, the entry
  \<^verbatim>\<open>notify_conf['notify_caught_exception']\<close>, and \<^verbatim>\<open>web_server_enabled\<close>. Numbers are
  rationals: the rounding of Python's floats is not modelled.
\<close>

record config =
  sleep_time :: rat
  analyseCurrencies :: bool
  ma_debug_log :: bool
  notify_caught_exception :: bool
  web_server_enabled :: bool

text \<open>
  The state: \<open>pending\<close> holds the outcomes of the collaborator calls still to come, in
  order (\<open>None\<close>: the call returns, \<open>Some e\<close>: it raises \<open>e\<close>; past its end every call
  returns), \<open>trace\<close> the events so far, \<open>api\<close> the adapter object.
\<close>

record state =
  pending :: "exn option list"
  trace :: "event list"
  api :: exchange_api

text \<open>A statement runs on a state and ends normally (\<open>None\<close>) or by raising.\<close>

type_synonym stmt = "state \<Rightarrow> exn option \<times> state"

definition call :: "event \<Rightarrow> stmt" where
  "call ev st =
     (case pending st of
        [] \<Rightarrow> (None, st\<lparr>trace := trace st @ [ev]\<rparr>)
      | r # rs \<Rightarrow> (r, st\<lparr>pending := rs, trace := trace st @ [ev]\<rparr>))"

definition py_print :: "printed \<Rightarrow> stmt" where
  "py_print out st = (None, st\<lparr>trace := trace st @ [Print out]\<rparr>)"

definition py_raise :: "exn \<Rightarrow> stmt" where
  "py_raise e st = (Some e, st)"

fun block :: "stmt list \<Rightarrow> stmt" where
  "block [] st = (None, st)"
| "block (p # ps) st =
     (case p st of (None, st') \<Rightarrow> block ps st' | (Some e, st') \<Rightarrow> (Some e, st'))"

definition py_if :: "bool \<Rightarrow> stmt \<Rightarrow> stmt" where
  "py_if b p st = (if b then p st else (None, st))"

definition if_in :: "string \<Rightarrow> exn \<Rightarrow> stmt \<Rightarrow> stmt \<Rightarrow> stmt" where
  \<comment> \<open>\<^verbatim>\<open>if s in ex: p\<close>, \<^verbatim>\<open>else: q\<close>\<close>
  "if_in s ex p q st =
     (case py_in s ex of Inl e \<Rightarrow> (Some e, st) | Inr b \<Rightarrow> if b then p st else q st)"

definition cycle_body :: "config \<Rightarrow> stmt" where
  \<comment> \<open>lines 76 to 86\<close>
  "cycle_body cfg = block
     [call UpdateConversionRates,
      call BeforeLending,
      call TransferBalances,
      call CancelAll,
      call LendAll,
      call AfterLending,
      call RefreshStatus,
      call PersistStatus,
      call Flush,
      call (Sleep (sleep_time cfg))]"

definition increase_req_period :: stmt where
  \<comment> \<open>lines 119 and 120\<close>
  "increase_req_period st =
     (None,
      if req_period (api st) \<le> default_req_period (api st) * 1.5
      then st\<lparr>api := (api st)\<lparr>req_period := req_period (api st) + 3\<rparr>\<rparr>
      else st)"

definition print_req_period :: stmt where
  \<comment> \<open>lines 122 and 123\<close>
  "print_req_period st = py_print (CaughtRateLimit (req_period (api st))) st"

definition rate_limit :: "config \<Rightarrow> stmt" where
  \<comment> \<open>lines 115 to 125\<close>
  "rate_limit cfg =
     (let additional_sleep = max (130 - sleep_time cfg) 0;
          sum_sleep = additional_sleep + sleep_time cfg
      in block
        [call (LogError (ErrBanned sum_sleep)),
         py_if (analyseCurrencies cfg)
           (block
             [increase_req_period,
              py_if (ma_debug_log cfg)
                (block [print_req_period, call (LogError ErrExpectBan)])]),
         call (Sleep additional_sleep)])"

definition unhandled :: "config \<Rightarrow> exn \<Rightarrow> stmt" where
  \<comment> \<open>lines 128 to 131\<close>
  "unhandled cfg ex = block
     [py_print Traceback,
      py_print UnhandledError,
      py_if (notify_caught_exception cfg) (call (Notify (msg ex)))]"

definition recover :: "config \<Rightarrow> exn \<Rightarrow> stmt" where
  \<comment> \<open>the \<^verbatim>\<open>if\<close> chain of the clause, lines 99 to 131\<close>
  "recover cfg ex =
     if_in ''Invalid API key'' ex
       (block [py_print Troubleshooting, py_print HintPlainKeys, py_raise ex])
     (if_in ''Nonce must be greater'' ex
       (block [py_print Troubleshooting, py_print HintUniqueKey, py_raise ex])
     (if_in ''Permission denied'' ex
       (block [py_print Troubleshooting, py_print HintIpFilter, py_raise ex])
     (if_in ''timed out'' ex
       (py_print (TimedOut (sleep_time cfg)))
     (if_in ''Error 429'' ex
       (rate_limit cfg)
       (unhandled cfg ex)))))"

definition handle_exception :: "config \<Rightarrow> exn \<Rightarrow> stmt" where
  \<comment> \<open>the clause \<^verbatim>\<open>except Exception as ex\<close>, lines 97 to 133\<close>
  "handle_exception cfg ex = block
     [call (LogError (ErrException (msg ex))),
      call PersistStatus,
      recover cfg ex,
      call Flush,
      call (Sleep (sleep_time cfg))]"

definition iteration :: "config \<Rightarrow> stmt" where
  \<comment> \<open>the inner \<^verbatim>\<open>try\<close>, lines 75 to 133\<close>
  "iteration cfg st =
     (case cycle_body cfg st of
        (None, st') \<Rightarrow> (None, st')
      | (Some ex, st') \<Rightarrow>
          if cls ex = KeyboardInterrupt then (Some ex, st')
          else if cls ex = BadStatusLine then py_print CaughtBadStatusLine st'
          else if cls ex = URLError then py_print (CaughtFromExchange (msg ex)) st'
          else if cls ex = ApiError then py_print (CaughtReadingApi (msg ex)) st'
          else if is_Exception (cls ex) then handle_exception cfg ex st'
          else (Some ex, st'))"

text \<open>
  \<^verbatim>\<open>while True\<close> ends only when an iteration raises; a loop that runs forever has the
  value \<open>None\<close>.
\<close>

partial_function (option) while_True :: "config \<Rightarrow> state \<Rightarrow> (exn \<times> state) option" where
  "while_True cfg st =
     (case iteration cfg st of
        (None, st') \<Rightarrow> while_True cfg st'
      | (Some ex, st') \<Rightarrow> Some (ex, st'))"

definition on_interrupt :: "config \<Rightarrow> stmt" where
  \<comment> \<open>the outer clause \<^verbatim>\<open>except KeyboardInterrupt\<close>, lines 137 to 141\<close>
  "on_interrupt cfg = block
     [py_if (web_server_enabled cfg) (call StopWebServer),
      call OnBotExit,
      call LogBye,
      py_print Bye]"

definition main :: "config \<Rightarrow> state \<Rightarrow> (exn option \<times> state) option" where
  \<comment> \<open>lines 73 to 141: \<open>Some (None, st)\<close> when \<^verbatim>\<open>main\<close> returns, \<open>Some (Some e, st)\<close> when \<open>e\<close> leaves it\<close>
  "main cfg st =
     (case while_True cfg st of
        None \<Rightarrow> None
      | Some (ex, st') \<Rightarrow>
          Some (if cls ex = KeyboardInterrupt then on_interrupt cfg st' else (Some ex, st')))"

text \<open>\<open>cycles cfg n\<close> runs \<open>n\<close> iterations of the loop, stopping at the first that raises.\<close>

fun cycles :: "config \<Rightarrow> nat \<Rightarrow> stmt" where
  "cycles cfg 0 st = (None, st)"
| "cycles cfg (Suc n) st =
     (case iteration cfg st of
        (None, st') \<Rightarrow> cycles cfg n st'
      | (Some ex, st') \<Rightarrow> (Some ex, st'))"

text \<open>A configuration, a starting state and an interrupt, for the worked examples.\<close>

definition example_config :: config where
  "example_config =
     \<lparr>sleep_time = 60, analyseCurrencies = True, ma_debug_log = False,
      notify_caught_exception = True, web_server_enabled = False\<rparr>"

definition start :: "exn option list \<Rightarrow> state" where
  \<comment> \<open>a state with nothing done yet and the adapter at its default period\<close>
  "start outcomes =
     \<lparr>pending = outcomes, trace = [], api = \<lparr>req_period = 1000, default_req_period = 1000\<rparr>\<rparr>"

definition interrupt :: exn where
  "interrupt = \<lparr>cls = KeyboardInterrupt, msg = [], contains_impl = None\<rparr>"

section \<open>Notions used to state the results\<close>

text \<open>
  \<open>delivered st st'\<close> are the outcomes that the collaborator calls made between the
  states \<open>st\<close> and \<open>st'\<close> of one run received. A statement \<open>propagates\<close> when every
  exception one of its collaborator calls raises is the exception the statement ends with.
\<close>

definition delivered :: "state \<Rightarrow> state \<Rightarrow> exn option list" where
  "delivered st st' = take (length (pending st) - length (pending st')) (pending st)"

definition propagates :: "stmt \<Rightarrow> bool" where
  "propagates p =
     (\<forall>st r st'. p st = (r, st') \<longrightarrow>
        (\<exists>us. pending st = us @ pending st' \<and> (\<forall>e. Some e \<in> set us \<longrightarrow> r = Some e)))"

section \<open>The factory selects by name or refuses\<close>

lemma dom_EXCHANGE: "dom EXCHANGE = {''POLONIEX'', ''BITFINEX''}"
  by (auto simp: EXCHANGE_def split: if_splits)

text \<open>
  C8. For an exchange name outside the known set \<open>{POLONIEX, BITFINEX}\<close>, \<open>createApi\<close>
  raises \<^verbatim>\<open>Exception("Invalid exchange: " + exchange)\<close> and calls no constructor. For a
  known name it calls the constructor of the corresponding class exactly once, with
  \<open>(cfg, log)\<close>, and its outcome is that call's outcome: there is no second attempt and
  no other effect.
\<close>

theorem createApi_selects:
  "(exchange \<notin> {''POLONIEX'', ''BITFINEX''} \<longrightarrow>
      createApi new exchange cfg logger = (Inl (Exception (''Invalid exchange: '' @ exchange)), []))
   \<and> createApi new ''POLONIEX'' cfg logger = (new Poloniex cfg logger, [(Poloniex, cfg, logger)])
   \<and> createApi new ''BITFINEX'' cfg logger = (new Bitfinex cfg logger, [(Bitfinex, cfg, logger)])"
  by (simp add: createApi_def dom_EXCHANGE) (simp add: EXCHANGE_def)

theorem createApi_selects_witness:
  "''KRAKEN'' \<notin> {''POLONIEX'', ''BITFINEX''}
   \<and> createApi (\<lambda>c (k::string) (l::string). Inr (c, k, l)) ''KRAKEN'' ''cfg'' ''log''
       = (Inl (Exception ''Invalid exchange: KRAKEN''), [])
   \<and> createApi (\<lambda>c (k::string) (l::string). Inr (c, k, l)) ''POLONIEX'' ''cfg'' ''log''
       = (Inr (Poloniex, ''cfg'', ''log''), [(Poloniex, ''cfg'', ''log'')])"
  using createApi_selects [of "''KRAKEN''" "\<lambda>c (k::string) (l::string). Inr (c, k, l)" "''cfg''" "''log''"]
  by simp

section \<open>Exceptions raised by collaborator calls are not lost inside a statement\<close>

lemmas run_defs = call_def py_print_def py_raise_def py_if_def if_in_def py_in_def
  cycle_body_def increase_req_period_def print_req_period_def rate_limit_def unhandled_def
  recover_def handle_exception_def iteration_def on_interrupt_def

lemma propagatesI:
  assumes "\<And>st r st'. p st = (r, st') \<Longrightarrow>
     \<exists>us. pending st = us @ pending st' \<and> (\<forall>e. Some e \<in> set us \<longrightarrow> r = Some e)"
  shows "propagates p"
  using assms unfolding propagates_def by blast

lemma propagatesD:
  assumes "propagates p" and "p st = (r, st')"
  shows "\<exists>us. pending st = us @ pending st' \<and> (\<forall>e. Some e \<in> set us \<longrightarrow> r = Some e)"
  using assms unfolding propagates_def by blast

lemma propagates_call: "propagates (call ev)"
proof (rule propagatesI)
  fix st r st' assume run: "call ev st = (r, st')"
  show "\<exists>us. pending st = us @ pending st' \<and> (\<forall>e. Some e \<in> set us \<longrightarrow> r = Some e)"
  proof (cases "pending st")
    case Nil
    with run have "pending st' = []" by (auto simp: call_def)
    with Nil show ?thesis by simp
  next
    case (Cons x xs)
    with run have "pending st' = xs" and "r = x" by (auto simp: call_def)
    with Cons have "pending st = [x] @ pending st' \<and> (\<forall>e. Some e \<in> set [x] \<longrightarrow> r = Some e)"
      by simp
    then show ?thesis by blast
  qed
qed

lemma propagates_quiet:
  assumes "\<And>st. pending (snd (p st)) = pending st"
  shows "propagates p"
proof (rule propagatesI)
  fix st r st' assume "p st = (r, st')"
  with assms [of st] have "pending st = [] @ pending st'" by simp
  then show "\<exists>us. pending st = us @ pending st' \<and> (\<forall>e. Some e \<in> set us \<longrightarrow> r = Some e)"
    by fastforce
qed

lemma propagates_py_print: "propagates (py_print out)"
  by (rule propagates_quiet) (simp add: py_print_def)

lemma propagates_py_raise: "propagates (py_raise e)"
  by (rule propagates_quiet) (simp add: py_raise_def)

lemma propagates_increase_req_period: "propagates increase_req_period"
  by (rule propagates_quiet) (simp add: increase_req_period_def)

lemma propagates_print_req_period: "propagates print_req_period"
  by (rule propagates_quiet) (simp add: print_req_period_def py_print_def)

lemma propagates_skip: "propagates (\<lambda>st. (None, st))"
  by (rule propagates_quiet) simp

lemma propagates_py_if: "propagates p \<Longrightarrow> propagates (py_if b p)"
  by (cases b) (simp_all add: py_if_def [abs_def] propagates_skip)

lemma propagates_if_in:
  assumes "propagates p" and "propagates q"
  shows "propagates (if_in s ex p q)"
proof (cases "py_in s ex")
  case (Inl e)
  then have "if_in s ex p q = py_raise e" by (simp add: if_in_def [abs_def] py_raise_def [abs_def])
  then show ?thesis by (simp add: propagates_py_raise)
next
  case (Inr b)
  then have "if_in s ex p q = (if b then p else q)" by (auto simp: if_in_def [abs_def])
  with assms show ?thesis by simp
qed

lemma propagates_block:
  assumes "\<And>p. p \<in> set ps \<Longrightarrow> propagates p"
  shows "propagates (block ps)"
  using assms
proof (induction ps)
  case Nil
  have "block [] = (\<lambda>st. (None, st))" by (rule ext) simp
  then show ?case by (simp add: propagates_skip)
next
  case (Cons p ps)
  then have hd: "propagates p" and tl: "propagates (block ps)" by simp_all
  show ?case
  proof (rule propagatesI)
    fix st r st' assume run: "block (p # ps) st = (r, st')"
    obtain r1 st1 where first: "p st = (r1, st1)" by (cases "p st")
    from propagatesD [OF hd first] obtain us1 where us1: "pending st = us1 @ pending st1"
      and only1: "\<And>e. Some e \<in> set us1 \<Longrightarrow> r1 = Some e" by blast
    show "\<exists>us. pending st = us @ pending st' \<and> (\<forall>e. Some e \<in> set us \<longrightarrow> r = Some e)"
    proof (cases r1)
      case None
      with run first have rest: "block ps st1 = (r, st')" by simp
      from propagatesD [OF tl rest] obtain us2 where us2: "pending st1 = us2 @ pending st'"
        and only2: "\<And>e. Some e \<in> set us2 \<Longrightarrow> r = Some e" by blast
      from None only1 have "\<And>e. Some e \<notin> set us1" by fastforce
      with us1 us2 only2 have "pending st = (us1 @ us2) @ pending st' \<and> (\<forall>e. Some e \<in> set (us1 @ us2) \<longrightarrow> r = Some e)"
        by auto
      then show ?thesis by blast
    next
      case (Some e1)
      with run first have "r = Some e1" and "st' = st1" by simp_all
      with us1 only1 Some show ?thesis by blast
    qed
  qed
qed

lemma propagates_cycle_body: "propagates (cycle_body cfg)"
  unfolding cycle_body_def by (rule propagates_block) (auto simp: propagates_call)

lemma propagates_rate_limit: "propagates (rate_limit cfg)"
  unfolding rate_limit_def Let_def
  by (intro propagates_block propagates_py_if)
     (auto intro!: propagates_block propagates_py_if
           simp: propagates_call propagates_increase_req_period propagates_print_req_period)

lemma propagates_unhandled: "propagates (unhandled cfg ex)"
  unfolding unhandled_def
  by (rule propagates_block) (auto simp: propagates_py_print propagates_call intro: propagates_py_if)

lemma propagates_fatal: "propagates (block [py_print a, py_print b, py_raise ex])"
  by (rule propagates_block) (auto simp: propagates_py_print propagates_py_raise)

lemma propagates_recover: "propagates (recover cfg ex)"
  unfolding recover_def
  by (intro propagates_if_in propagates_fatal propagates_py_print propagates_rate_limit
        propagates_unhandled)

lemma propagates_handle_exception: "propagates (handle_exception cfg ex)"
  unfolding handle_exception_def
  by (rule propagates_block) (auto simp: propagates_call propagates_recover)

lemma interrupt_not_swallowed:
  assumes run: "iteration cfg st = (r, st')"
    and us: "pending st = us @ pending st'"
    and ex: "Some ex \<in> set us" and kbd: "cls ex = KeyboardInterrupt"
  shows "r = Some ex"
proof -
  obtain rb stb where body: "cycle_body cfg st = (rb, stb)" by (cases "cycle_body cfg st")
  from propagatesD [OF propagates_cycle_body body] obtain ub where ub: "pending st = ub @ pending stb"
    and onlyb: "\<And>e. Some e \<in> set ub \<Longrightarrow> rb = Some e" by blast
  show ?thesis
  proof (cases rb)
    case None
    with run body have "st' = stb" and "r = None" by (simp_all add: iteration_def)
    with us ub have "us = ub" by simp
    with ex onlyb None show ?thesis by fastforce
  next
    case (Some e0)
    show ?thesis
    proof (cases "cls e0 \<noteq> KeyboardInterrupt \<and> cls e0 \<noteq> BadStatusLine \<and> cls e0 \<noteq> URLError
                  \<and> cls e0 \<noteq> ApiError \<and> is_Exception (cls e0)")
      case True
      with run body Some have h: "handle_exception cfg e0 stb = (r, st')"
        by (simp add: iteration_def)
      from propagatesD [OF propagates_handle_exception h] obtain uh where uh: "pending stb = uh @ pending st'"
        and onlyh: "\<And>e. Some e \<in> set uh \<Longrightarrow> r = Some e" by blast
      from us ub uh have "us = ub @ uh" by simp
      with ex have "Some ex \<in> set ub \<or> Some ex \<in> set uh" by simp
      then show ?thesis
      proof
        assume "Some ex \<in> set ub"
        then have "rb = Some ex" by (rule onlyb)
        with Some kbd True show ?thesis by simp
      next
        assume "Some ex \<in> set uh"
        then show ?thesis by (rule onlyh)
      qed
    next
      case False
      with run body Some have same: "pending st' = pending stb"
        and res: "r = Some e0 \<or> (r = None \<and> cls e0 \<noteq> KeyboardInterrupt)"
        by (auto simp: iteration_def py_print_def split: if_splits)
      from same us ub have "us = ub" by simp
      with ex have "rb = Some ex" by (simp add: onlyb)
      with Some have "e0 = ex" by simp
      with res kbd show ?thesis by auto
    qed
  qed
qed

lemma delivered_append: "pending st = us @ pending st' \<Longrightarrow> delivered st st' = us"
  by (simp add: delivered_def)

lemma iteration_pending:
  assumes run: "iteration cfg st = (r, st')"
  shows "\<exists>us. pending st = us @ pending st'"
proof -
  obtain rb stb where body: "cycle_body cfg st = (rb, stb)" by (cases "cycle_body cfg st")
  from propagatesD [OF propagates_cycle_body body] obtain ub where ub: "pending st = ub @ pending stb"
    by blast
  show ?thesis
  proof (cases "\<exists>e0. rb = Some e0 \<and> cls e0 \<noteq> KeyboardInterrupt \<and> cls e0 \<noteq> BadStatusLine \<and> cls e0 \<noteq> URLError
                  \<and> cls e0 \<noteq> ApiError \<and> is_Exception (cls e0)")
    case True
    then obtain e0 where "rb = Some e0" and "cls e0 \<noteq> KeyboardInterrupt" and "cls e0 \<noteq> BadStatusLine"
      and "cls e0 \<noteq> URLError" and "cls e0 \<noteq> ApiError" and "is_Exception (cls e0)" by blast
    with run body have h: "handle_exception cfg e0 stb = (r, st')"
      by (simp add: iteration_def)
    from propagatesD [OF propagates_handle_exception h] obtain uh where "pending stb = uh @ pending st'"
      by blast
    with ub have "pending st = (ub @ uh) @ pending st'" by simp
    then show ?thesis by blast
  next
    case False
    with run body have "pending st' = pending stb"
      by (cases rb) (auto simp: iteration_def py_print_def split: if_splits)
    with ub show ?thesis by auto
  qed
qed

lemma interrupt_delivered:
  assumes run: "iteration cfg st = (r, st')"
    and ex: "Some ex \<in> set (delivered st st')" and kbd: "cls ex = KeyboardInterrupt"
  shows "r = Some ex"
proof -
  from iteration_pending [OF run] obtain us where us: "pending st = us @ pending st'" by blast
  then have "delivered st st' = us" by (rule delivered_append)
  with ex have "Some ex \<in> set us" by simp
  with run us show ?thesis using kbd by (rule interrupt_not_swallowed)
qed

lemma while_True_continues:
  "iteration cfg st = (None, st') \<Longrightarrow> while_True cfg st = while_True cfg st'"
  by (subst while_True.simps) simp

lemma while_True_raises:
  "iteration cfg st = (Some ex, st') \<Longrightarrow> while_True cfg st = Some (ex, st')"
  by (subst while_True.simps) simp

lemma while_True_cycles:
  "cycles cfg n st0 = (None, st) \<Longrightarrow> while_True cfg st0 = while_True cfg st"
proof (induction n arbitrary: st0)
  case 0
  then show ?case by simp
next
  case (Suc n)
  obtain r1 st1 where first: "iteration cfg st0 = (r1, st1)" by (cases "iteration cfg st0")
  with Suc.prems have "r1 = None" and rest: "cycles cfg n st1 = (None, st)"
    by (auto split: option.splits)
  with first have "while_True cfg st0 = while_True cfg st1" by (simp add: while_True_continues)
  with Suc.IH [OF rest] show ?case by simp
qed

lemma on_interrupt_trace:
  assumes "on_interrupt cfg st = (None, st')"
  shows "trace st' = trace st @ (if web_server_enabled cfg then [StopWebServer] else [])
                       @ [OnBotExit, LogBye, Print Bye]"
  using assms
  by (auto simp: on_interrupt_def call_def py_if_def py_print_def split: list.splits option.splits if_splits)


section \<open>The operator's interrupt\<close>

text \<open>
  C5. Let the loop have run \<open>n\<close> cycles, and let a collaborator call of the next
  iteration (a call of the cycle body or of a failure handler, each \<^verbatim>\<open>time.sleep\<close>
  included) raise a \<^verbatim>\<open>KeyboardInterrupt\<close>. Then the iteration ends with that very
  exception, and, the calls of the exit clause returning, \<^verbatim>\<open>main\<close> returns normally;
  what happens after the interrupt is \<^verbatim>\<open>stop_web_server\<close> when the web server is
  enabled, \<^verbatim>\<open>on_bot_exit\<close> exactly once, the two farewells, and no step of a further cycle.
\<close>

theorem keyboard_interrupt_stops_main:
  assumes before: "cycles cfg n st0 = (None, st)"
    and run: "iteration cfg st = (r, st1)"
    and ex: "Some ex \<in> set (delivered st st1)" and kbd: "cls ex = KeyboardInterrupt"
    and leave: "on_interrupt cfg st1 = (None, st2)"
  shows "r = Some ex \<and> main cfg st0 = Some (None, st2)
     \<and> trace st2 = trace st1 @ (if web_server_enabled cfg then [StopWebServer] else [])
                       @ [OnBotExit, LogBye, Print Bye]
     \<and> count_list (drop (length (trace st1)) (trace st2)) OnBotExit = 1"
proof -
  from run ex kbd have r: "r = Some ex" by (rule interrupt_delivered)
  with run have "while_True cfg st = Some (ex, st1)" by (simp add: while_True_raises)
  with while_True_cycles [OF before] have "while_True cfg st0 = Some (ex, st1)" by simp
  with kbd leave have m: "main cfg st0 = Some (None, st2)" by (simp add: main_def)
  from leave have t: "trace st2 = trace st1 @ (if web_server_enabled cfg then [StopWebServer] else [])
                       @ [OnBotExit, LogBye, Print Bye]" by (rule on_interrupt_trace)
  then have "count_list (drop (length (trace st1)) (trace st2)) OnBotExit = 1" by simp
  with r m t show ?thesis by blast
qed


theorem keyboard_interrupt_stops_main_witness:
  "main example_config (start (replicate 19 None @ [Some interrupt])) =
     Some (None,
       \<lparr>pending = [],
        trace =
          [UpdateConversionRates, BeforeLending, TransferBalances, CancelAll, LendAll,
           AfterLending, RefreshStatus, PersistStatus, Flush, Sleep 60,
           UpdateConversionRates, BeforeLending, TransferBalances, CancelAll, LendAll,
           AfterLending, RefreshStatus, PersistStatus, Flush, Sleep 60,
           OnBotExit, LogBye, Print Bye],
        api = \<lparr>req_period = 1000, default_req_period = 1000\<rparr>\<rparr>)"
proof -
  let ?first = "[UpdateConversionRates, BeforeLending, TransferBalances, CancelAll, LendAll,
           AfterLending, RefreshStatus, PersistStatus, Flush, Sleep 60]"
  let ?a = "\<lparr>req_period = 1000, default_req_period = 1000\<rparr>"
  let ?st = "\<lparr>pending = replicate 9 None @ [Some interrupt], trace = ?first, api = ?a\<rparr>"
  let ?st1 = "\<lparr>pending = [], trace = ?first @ ?first, api = ?a\<rparr>"
  let ?st2 = "\<lparr>pending = [], trace = ?first @ ?first @ [OnBotExit, LogBye, Print Bye], api = ?a\<rparr>"
  have before: "cycles example_config 1 (start (replicate 19 None @ [Some interrupt])) = (None, ?st)"
    by (simp add: run_defs example_config_def start_def eval_nat_numeral)
  have run: "iteration example_config ?st = (Some interrupt, ?st1)"
    by (simp add: run_defs example_config_def interrupt_def eval_nat_numeral)
  have ex: "Some interrupt \<in> set (delivered ?st ?st1)"
    by (simp add: delivered_def)
  have kbd: "cls interrupt = KeyboardInterrupt"
    by (simp add: interrupt_def)
  have leave: "on_interrupt example_config ?st1 = (None, ?st2)"
    by (simp add: run_defs example_config_def)
  from keyboard_interrupt_stops_main [OF before run ex kbd leave] show ?thesis
    by simp
qed

section \<open>The order of a cycle\<close>

text \<open>
  C6. The events of a cycle body are an initial segment of: refresh the conversion
  rates, the hook before lending, transfer balances, cancel all offers, lend, the hook
  after lending, refresh and persist the status, flush, sleep for the cycle interval;
  a step starts only when those before it have returned. A body that ends normally has
  run exactly these steps in this order, and the iteration ends normally with it.
\<close>

theorem cycle_steps_in_order:
  assumes "cycle_body cfg st = (r, st')"
  shows "(\<exists>k. trace st' = trace st @ take k
            [UpdateConversionRates, BeforeLending, TransferBalances, CancelAll, LendAll,
             AfterLending, RefreshStatus, PersistStatus, Flush, Sleep (sleep_time cfg)])
     \<and> (r = None \<longrightarrow>
          trace st' = trace st @
            [UpdateConversionRates, BeforeLending, TransferBalances, CancelAll, LendAll,
             AfterLending, RefreshStatus, PersistStatus, Flush, Sleep (sleep_time cfg)]
          \<and> iteration cfg st = (None, st'))"
proof -
  let ?steps = "[UpdateConversionRates, BeforeLending, TransferBalances, CancelAll, LendAll,
             AfterLending, RefreshStatus, PersistStatus, Flush, Sleep (sleep_time cfg)]"
  from assms have "r = None \<longrightarrow> trace st' = trace st @ ?steps"
    by (auto simp: cycle_body_def call_def split: list.splits option.splits)
  moreover from assms have "r = None \<longrightarrow> iteration cfg st = (None, st')"
    by (simp add: iteration_def)
  moreover from assms have "trace st' \<in> (\<lambda>k. trace st @ take k ?steps) ` {1,2,3,4,5,6,7,8,9,10::nat}"
    by (auto simp: cycle_body_def call_def split: list.splits option.splits)
  then have "\<exists>k. trace st' = trace st @ take k ?steps" by blast
  ultimately show ?thesis by blast
qed


theorem cycle_steps_in_order_witness:
  "cycle_body example_config (start []) =
     (None,
      \<lparr>pending = [],
       trace = [UpdateConversionRates, BeforeLending, TransferBalances, CancelAll, LendAll,
                AfterLending, RefreshStatus, PersistStatus, Flush, Sleep 60],
       api = \<lparr>req_period = 1000, default_req_period = 1000\<rparr>\<rparr>)
   \<and> iteration example_config (start []) = cycle_body example_config (start [])"
proof -
  let ?st' = "\<lparr>pending = [],
       trace = [UpdateConversionRates, BeforeLending, TransferBalances, CancelAll, LendAll,
                AfterLending, RefreshStatus, PersistStatus, Flush, Sleep 60],
       api = \<lparr>req_period = 1000, default_req_period = 1000\<rparr>\<rparr>"
  have run: "cycle_body example_config (start []) = (None, ?st')"
    by (simp add: cycle_body_def call_def example_config_def start_def)
  from cycle_steps_in_order [OF run] have "iteration example_config (start []) = (None, ?st')"
    by simp
  with run show ?thesis by simp
qed

section \<open>Failures that are ignored\<close>

text \<open>
  C7. When the cycle body raises a \<^verbatim>\<open>BadStatusLine\<close> or a \<^verbatim>\<open>URLError\<close>, the iteration
  ends normally: it prints one line reporting the failure and does nothing else (no
  sleep, no call to a collaborator, the exception is not raised again). The loop then
  starts the next cycle from that state: running \<open>n + 1\<close> cycles from the state before
  is running \<open>n\<close> cycles from the state after the line was printed, for every \<open>n\<close>, and
  the loop as a whole behaves from the one state as from the other.
\<close>

theorem transport_failure_ignored:
  assumes "cycle_body cfg st = (Some ex, st1)" and "cls ex = BadStatusLine \<or> cls ex = URLError"
  shows "iteration cfg st =
           (None, st1\<lparr>trace := trace st1 @
              [Print (if cls ex = BadStatusLine then CaughtBadStatusLine
                      else CaughtFromExchange (msg ex))]\<rparr>)
     \<and> cycles cfg (Suc n) st = cycles cfg n (st1\<lparr>trace := trace st1 @
              [Print (if cls ex = BadStatusLine then CaughtBadStatusLine
                      else CaughtFromExchange (msg ex))]\<rparr>)
     \<and> while_True cfg st = while_True cfg (st1\<lparr>trace := trace st1 @
              [Print (if cls ex = BadStatusLine then CaughtBadStatusLine
                      else CaughtFromExchange (msg ex))]\<rparr>)"
proof -
  from assms have "iteration cfg st =
           (None, st1\<lparr>trace := trace st1 @
              [Print (if cls ex = BadStatusLine then CaughtBadStatusLine
                      else CaughtFromExchange (msg ex))]\<rparr>)"
    by (auto simp: iteration_def py_print_def)
  then show ?thesis by (simp add: while_True_continues)
qed

text \<open>
  Two cycles: \<^verbatim>\<open>Lending.transfer_balances()\<close> raises a \<^verbatim>\<open>URLError\<close> in the first, which
  is reported, and the second cycle runs all its steps.
\<close>

theorem transport_failure_ignored_witness:
  "cycles example_config (Suc (Suc 0))
     (start [None, None, Some \<lparr>cls = URLError, msg = ''<urlopen error timed out>'', contains_impl = None\<rparr>]) =
     (None,
      \<lparr>pending = [],
       trace = [UpdateConversionRates, BeforeLending, TransferBalances,
                Print (CaughtFromExchange ''<urlopen error timed out>''),
                UpdateConversionRates, BeforeLending, TransferBalances, CancelAll, LendAll,
                AfterLending, RefreshStatus, PersistStatus, Flush, Sleep 60],
       api = \<lparr>req_period = 1000, default_req_period = 1000\<rparr>\<rparr>)"
proof -
  let ?ex = "\<lparr>cls = URLError, msg = ''<urlopen error timed out>'', contains_impl = None\<rparr>"
  let ?st1 = "\<lparr>pending = [], trace = [UpdateConversionRates, BeforeLending, TransferBalances],
       api = \<lparr>req_period = 1000, default_req_period = 1000\<rparr>\<rparr>"
  let ?st' = "\<lparr>pending = [],
       trace = [UpdateConversionRates, BeforeLending, TransferBalances,
                Print (CaughtFromExchange ''<urlopen error timed out>'')],
       api = \<lparr>req_period = 1000, default_req_period = 1000\<rparr>\<rparr>"
  have body: "cycle_body example_config (start [None, None, Some ?ex]) = (Some ?ex, ?st1)"
    by (simp add: cycle_body_def call_def start_def)
  have c: "cls ?ex = BadStatusLine \<or> cls ?ex = URLError" by simp
  have next_cycle: "cycles example_config (Suc 0) ?st' =
     (None,
      \<lparr>pending = [],
       trace = [UpdateConversionRates, BeforeLending, TransferBalances,
                Print (CaughtFromExchange ''<urlopen error timed out>''),
                UpdateConversionRates, BeforeLending, TransferBalances, CancelAll, LendAll,
                AfterLending, RefreshStatus, PersistStatus, Flush, Sleep 60],
       api = \<lparr>req_period = 1000, default_req_period = 1000\<rparr>\<rparr>)"
    by (simp add: iteration_def cycle_body_def call_def example_config_def)
  from transport_failure_ignored [OF body c, of "Suc 0"]
  have "cycles example_config (Suc (Suc 0)) (start [None, None, Some ?ex]) =
          cycles example_config (Suc 0) ?st'"
    by simp
  with next_cycle show ?thesis by simp
qed

text \<open>
  C9. When the cycle body raises an \<^verbatim>\<open>ApiError\<close>, whatever its text, the iteration ends
  normally: it prints one line with the error and does nothing else (no sleep, no
  \<^verbatim>\<open>log_error\<close>, the exception is not raised again); the clause for \<^verbatim>\<open>Exception\<close> is not
  entered. The loop then starts the next cycle from that state: running \<open>n + 1\<close> cycles
  from the state before is running \<open>n\<close> cycles from the state after the line was
  printed, for every \<open>n\<close>, and the loop as a whole behaves from the one state as from the
  other.
\<close>

theorem api_error_ignored:
  assumes "cycle_body cfg st = (Some ex, st1)" and "cls ex = ApiError"
  shows "iteration cfg st = (None, st1\<lparr>trace := trace st1 @ [Print (CaughtReadingApi (msg ex))]\<rparr>)
     \<and> cycles cfg (Suc n) st =
         cycles cfg n (st1\<lparr>trace := trace st1 @ [Print (CaughtReadingApi (msg ex))]\<rparr>)
     \<and> while_True cfg st = while_True cfg (st1\<lparr>trace := trace st1 @ [Print (CaughtReadingApi (msg ex))]\<rparr>)"
proof -
  from assms have "iteration cfg st = (None, st1\<lparr>trace := trace st1 @ [Print (CaughtReadingApi (msg ex))]\<rparr>)"
    by (simp add: iteration_def py_print_def)
  then show ?thesis by (simp add: while_True_continues)
qed

text \<open>
  Two cycles: \<^verbatim>\<open>Lending.lend_all()\<close> raises \<^verbatim>\<open>ApiError('Invalid API key')\<close> in the first,
  which is reported, and the second cycle runs all its steps.
\<close>

theorem api_error_ignored_witness:
  "cycles example_config (Suc (Suc 0))
     (start [None, None, None, None, Some \<lparr>cls = ApiError, msg = ''Invalid API key'', contains_impl = None\<rparr>]) =
     (None,
      \<lparr>pending = [],
       trace = [UpdateConversionRates, BeforeLending, TransferBalances, CancelAll, LendAll,
                Print (CaughtReadingApi ''Invalid API key''),
                UpdateConversionRates, BeforeLending, TransferBalances, CancelAll, LendAll,
                AfterLending, RefreshStatus, PersistStatus, Flush, Sleep 60],
       api = \<lparr>req_period = 1000, default_req_period = 1000\<rparr>\<rparr>)"
proof -
  let ?ex = "\<lparr>cls = ApiError, msg = ''Invalid API key'', contains_impl = None\<rparr>"
  let ?st1 = "\<lparr>pending = [], trace = [UpdateConversionRates, BeforeLending, TransferBalances, CancelAll, LendAll],
       api = \<lparr>req_period = 1000, default_req_period = 1000\<rparr>\<rparr>"
  let ?st' = "\<lparr>pending = [],
       trace = [UpdateConversionRates, BeforeLending, TransferBalances, CancelAll, LendAll,
                Print (CaughtReadingApi ''Invalid API key'')],
       api = \<lparr>req_period = 1000, default_req_period = 1000\<rparr>\<rparr>"
  have body: "cycle_body example_config (start [None, None, None, None, Some ?ex]) = (Some ?ex, ?st1)"
    by (simp add: cycle_body_def call_def start_def)
  have c: "cls ?ex = ApiError" by simp
  have next_cycle: "cycles example_config (Suc 0) ?st' =
     (None,
      \<lparr>pending = [],
       trace = [UpdateConversionRates, BeforeLending, TransferBalances, CancelAll, LendAll,
                Print (CaughtReadingApi ''Invalid API key''),
                UpdateConversionRates, BeforeLending, TransferBalances, CancelAll, LendAll,
                AfterLending, RefreshStatus, PersistStatus, Flush, Sleep 60],
       api = \<lparr>req_period = 1000, default_req_period = 1000\<rparr>\<rparr>)"
    by (simp add: iteration_def cycle_body_def call_def example_config_def)
  from api_error_ignored [OF body c, of "Suc 0"]
  have "cycles example_config (Suc (Suc 0)) (start [None, None, None, None, Some ?ex]) =
          cycles example_config (Suc 0) ?st'"
    by simp
  with next_cycle show ?thesis by simp
qed

section \<open>The clause for other exceptions tests the exception object\<close>

text \<open>
  Lines 99 to 114 apply \<^verbatim>\<open>in\<close> to the exception \<^verbatim>\<open>ex\<close> itself, not to its text. For an
  exception whose class defines no membership test, as every built-in class, the first
  test raises \<^verbatim>\<open>TypeError\<close>: the clause has by then logged the failure and persisted the
  status, and does nothing more.
\<close>

lemma recover_not_container:
  "contains_impl ex = None \<Longrightarrow> recover cfg ex st = (Some not_iterable, st)"
  by (simp add: recover_def if_in_def py_in_def)

lemma handle_exception_not_container:
  assumes "contains_impl ex = None" and "set (take 2 (pending st)) \<subseteq> {None}"
  shows "handle_exception cfg ex st =
     (Some not_iterable,
      st\<lparr>pending := drop 2 (pending st),
         trace := trace st @ [LogError (ErrException (msg ex)), PersistStatus]\<rparr>)"
proof (cases "pending st")
  case Nil
  with assms show ?thesis
    by (simp add: handle_exception_def call_def recover_not_container)
next
  case (Cons x xs)
  with assms show ?thesis
    by (cases xs) (simp_all add: handle_exception_def call_def recover_not_container)
qed

text \<open>
  C2. At the failing input: \<^verbatim>\<open>Lending.lend_all()\<close> raises \<^verbatim>\<open>Exception('Invalid API key')\<close>
  (and likewise for the texts \<^verbatim>\<open>'Nonce must be greater'\<close> and \<^verbatim>\<open>'Permission denied'\<close>).
  \<^verbatim>\<open>main\<close> ends, but with the \<^verbatim>\<open>TypeError\<close> of the test at line 99 and not with the
  exception raised again, and no troubleshooting hint is printed.
\<close>

theorem fatal_text_ends_in_TypeError:
  "main example_config (start [None, None, None, None, Some (Exception ''Invalid API key'')]) =
     Some (Some not_iterable,
       \<lparr>pending = [],
        trace = [UpdateConversionRates, BeforeLending, TransferBalances, CancelAll, LendAll,
                 LogError (ErrException ''Invalid API key''), PersistStatus],
        api = \<lparr>req_period = 1000, default_req_period = 1000\<rparr>\<rparr>)
   \<and> main example_config (start [None, None, None, None, Some (Exception ''Nonce must be greater'')]) =
     Some (Some not_iterable,
       \<lparr>pending = [],
        trace = [UpdateConversionRates, BeforeLending, TransferBalances, CancelAll, LendAll,
                 LogError (ErrException ''Nonce must be greater''), PersistStatus],
        api = \<lparr>req_period = 1000, default_req_period = 1000\<rparr>\<rparr>)
   \<and> main example_config (start [None, None, None, None, Some (Exception ''Permission denied'')]) =
     Some (Some not_iterable,
       \<lparr>pending = [],
        trace = [UpdateConversionRates, BeforeLending, TransferBalances, CancelAll, LendAll,
                 LogError (ErrException ''Permission denied''), PersistStatus],
        api = \<lparr>req_period = 1000, default_req_period = 1000\<rparr>\<rparr>)"
proof -
  have run: "iteration example_config (start [None, None, None, None, Some (Exception m)]) =
     (Some not_iterable,
       \<lparr>pending = [],
        trace = [UpdateConversionRates, BeforeLending, TransferBalances, CancelAll, LendAll,
                 LogError (ErrException m), PersistStatus],
        api = \<lparr>req_period = 1000, default_req_period = 1000\<rparr>\<rparr>)" for m
    by (simp add: run_defs start_def Exception_def)
  show ?thesis
    by (simp add: main_def while_True_raises [OF run] not_iterable_def)
qed

text \<open>
  C3. At the failing input: \<^verbatim>\<open>Lending.lend_all()\<close> raises \<^verbatim>\<open>Exception('Error 429')\<close>.
  The loop does not sleep at all and does not go on: \<^verbatim>\<open>main\<close> ends with the
  \<^verbatim>\<open>TypeError\<close> of the test at line 99.
\<close>

theorem rate_limit_text_ends_in_TypeError:
  "main example_config (start [None, None, None, None, Some (Exception ''Error 429'')]) =
     Some (Some not_iterable,
       \<lparr>pending = [],
        trace = [UpdateConversionRates, BeforeLending, TransferBalances, CancelAll, LendAll,
                 LogError (ErrException ''Error 429''), PersistStatus],
        api = \<lparr>req_period = 1000, default_req_period = 1000\<rparr>\<rparr>)"
proof -
  have run: "iteration example_config (start [None, None, None, None, Some (Exception ''Error 429'')]) =
     (Some not_iterable,
       \<lparr>pending = [],
        trace = [UpdateConversionRates, BeforeLending, TransferBalances, CancelAll, LendAll,
                 LogError (ErrException ''Error 429''), PersistStatus],
        api = \<lparr>req_period = 1000, default_req_period = 1000\<rparr>\<rparr>)"
    by (simp add: run_defs start_def Exception_def)
  show ?thesis
    by (simp add: main_def while_True_raises [OF run] not_iterable_def)
qed

text \<open>
  C10. At the failing input: the clause handles \<^verbatim>\<open>Exception('Error 429')\<close> while
  \<^verbatim>\<open>MarketAnalysis.analyseCurrencies\<close> is not configured. The adapter is left as it was,
  but the additional sleep of line 125 does not occur: the clause ends with the
  \<^verbatim>\<open>TypeError\<close> of the test at line 99.
\<close>

theorem no_additional_sleep_without_option:
  "handle_exception (example_config\<lparr>analyseCurrencies := False\<rparr>) (Exception ''Error 429'') (start []) =
     (Some not_iterable,
       \<lparr>pending = [],
        trace = [LogError (ErrException ''Error 429''), PersistStatus],
        api = \<lparr>req_period = 1000, default_req_period = 1000\<rparr>\<rparr>)"
  by (simp add: run_defs start_def Exception_def)

text \<open>
  C1. At the failing input: \<^verbatim>\<open>Lending.lend_all()\<close> raises \<^verbatim>\<open>Exception('timed out')\<close>, or
  an exception with a text the clause does not know, while \<^verbatim>\<open>notify_caught_exception\<close>
  is configured. The failure is logged and the status persisted, and then the clause
  itself raises: nothing is notified, there is no sleep, and \<^verbatim>\<open>main\<close> ends with the
  \<^verbatim>\<open>TypeError\<close> of the test at line 99 instead of going on with the next cycle.
\<close>

theorem timed_out_ends_in_TypeError:
  "notify_caught_exception example_config
   \<and> main example_config (start [None, None, None, None, Some (Exception ''timed out'')]) =
     Some (Some not_iterable,
       \<lparr>pending = [],
        trace = [UpdateConversionRates, BeforeLending, TransferBalances, CancelAll, LendAll,
                 LogError (ErrException ''timed out''), PersistStatus],
        api = \<lparr>req_period = 1000, default_req_period = 1000\<rparr>\<rparr>)
   \<and> main example_config (start [None, None, None, None, Some (Exception ''Connection reset by peer'')]) =
     Some (Some not_iterable,
       \<lparr>pending = [],
        trace = [UpdateConversionRates, BeforeLending, TransferBalances, CancelAll, LendAll,
                 LogError (ErrException ''Connection reset by peer''), PersistStatus],
        api = \<lparr>req_period = 1000, default_req_period = 1000\<rparr>\<rparr>)"
proof -
  have run: "iteration example_config (start [None, None, None, None, Some (Exception m)]) =
     (Some not_iterable,
       \<lparr>pending = [],
        trace = [UpdateConversionRates, BeforeLending, TransferBalances, CancelAll, LendAll,
                 LogError (ErrException m), PersistStatus],
        api = \<lparr>req_period = 1000, default_req_period = 1000\<rparr>\<rparr>)" for m
    by (simp add: run_defs start_def Exception_def)
  have configured: "notify_caught_exception example_config"
    by (simp add: example_config_def)
  from configured show ?thesis
    by (simp add: main_def while_True_raises [OF run] not_iterable_def)
qed

section \<open>The adapter's request period\<close>

text \<open>
  The adapter is changed at one place only, lines 119 and 120, inside the branch of the
  test for \<^verbatim>\<open>'Error 429'\<close>. An exception whose class defines no membership test never
  gets there: the clause leaves the adapter as it was.
\<close>

lemma call_api: "call ev st = (r, st') \<Longrightarrow> api st' = api st"
  by (auto simp: call_def split: list.splits)

lemma block_frame:
  assumes each: "\<And>p st r st'. p \<in> set ps \<Longrightarrow> p st = (r, st') \<Longrightarrow> f st' = f st"
    and run: "block ps st = (r, st')"
  shows "f st' = f st"
  using assms
proof (induction ps arbitrary: st)
  case Nil
  then show ?case by simp
next
  case (Cons p ps)
  have each: "f s' = f s" if "q \<in> set (p # ps)" and "q s = (x, s')" for q s x s'
    using that by (rule Cons.prems(1))
  obtain r1 st1 where first: "p st = (r1, st1)" by (cases "p st")
  have f1: "f st1 = f st" using each [of p st r1 st1] first by simp
  show ?case
  proof (cases r1)
    case None
    with first Cons.prems(2) have rest: "block ps st1 = (r, st')" by simp
    have "f st' = f st1"
    proof (rule Cons.IH)
      fix q s x s' assume "q \<in> set ps" and "q s = (x, s')"
      then show "f s' = f s" using each [of q s x s'] by simp
    next
      show "block ps st1 = (r, st')" by (rule rest)
    qed
    with f1 show ?thesis by simp
  next
    case (Some e)
    with first Cons.prems(2) have "st' = st1" by simp
    with f1 show ?thesis by simp
  qed
qed

lemma handle_exception_not_container_api:
  assumes "contains_impl ex = None" and "handle_exception cfg ex st = (r, st')"
  shows "api st' = api st"
  using assms(2) unfolding handle_exception_def
  by (rule block_frame [rotated]) (auto dest: call_api simp: recover_not_container [OF assms(1)])

text \<open>
  C4. At the failing input: \<^verbatim>\<open>Data.update_conversion_rates()\<close> raises
  \<^verbatim>\<open>Exception('Error 429')\<close> while \<^verbatim>\<open>MarketAnalysis.analyseCurrencies\<close> is configured and
  \<open>req_period\<close> is at its default, within 1.5 times the default. The rate-limit failure
  is observed, yet \<open>req_period\<close> does not increase: the iteration ends with the
  \<^verbatim>\<open>TypeError\<close> of the test at line 99 and the adapter is as before.
\<close>

theorem rate_limit_text_leaves_req_period:
  "analyseCurrencies example_config
   \<and> req_period (api (start [Some (Exception ''Error 429'')]))
        \<le> default_req_period (api (start [Some (Exception ''Error 429'')])) * 1.5
   \<and> iteration example_config (start [Some (Exception ''Error 429'')]) =
     (Some not_iterable,
       \<lparr>pending = [],
        trace = [UpdateConversionRates, LogError (ErrException ''Error 429''), PersistStatus],
        api = \<lparr>req_period = 1000, default_req_period = 1000\<rparr>\<rparr>)
   \<and> req_period (api (snd (iteration example_config (start [Some (Exception ''Error 429'')]))))
        = req_period (api (start [Some (Exception ''Error 429'')]))"
  by (simp add: run_defs start_def Exception_def example_config_def)

end
